theory Spec2Isabelle
  imports Main "HOL-Library.Word"
begin

section \<open>Machine types of \<^verbatim>\<open>src/types.h\<close>\<close>

text \<open>
  The header is compiled for an LP64 target with 64-bit file offsets (FUSE requires
  \<^verbatim>\<open>_FILE_OFFSET_BITS=64\<close>): \<^verbatim>\<open>off_t\<close> and \<^verbatim>\<open>long\<close> are signed 64-bit, \<^verbatim>\<open>int\<close> is signed
  32-bit. They are words; comparisons are the signed ones (\<open><s\<close>, \<open><=s\<close>), and
  \<open>+\<close> and \<open>-\<close> are two's complement, which is what the compiled code computes where
  the language standard leaves a signed overflow undefined.
\<close>

type_synonym off_t = "64 word"
type_synonym long = "64 word"
type_synonym c_int = "32 word"

text \<open>\<^verbatim>\<open>std::min(a, b)\<close> is \<^verbatim>\<open>(b < a) ? b : a\<close>, \<^verbatim>\<open>std::max(a, b)\<close> is \<^verbatim>\<open>(a < b) ? b : a\<close>.\<close>

definition std_min :: "off_t \<Rightarrow> off_t \<Rightarrow> off_t" where
  "std_min a b = (if b <s a then b else a)"

definition std_max :: "off_t \<Rightarrow> off_t \<Rightarrow> off_t" where
  "std_max a b = (if a <s b then b else a)"

section \<open>untreatedpart\<close>

text \<open>
  \<^verbatim>\<open>struct untreatedpart { off_t start; off_t size; long untreated_tag; ... }\<close>.
  The field \<^verbatim>\<open>size\<close> is \<open>size_up\<close> here (\<open>size\<close> is a constant of HOL).
\<close>

record untreatedpart =
  start :: off_t
  size_up :: off_t
  untreated_tag :: long

text \<open>\<^verbatim>\<open>void clear()\<close>: the three assignments.\<close>

definition clear :: "untreatedpart \<Rightarrow> untreatedpart" where
  "clear r = r\<lparr>start := 0, size_up := 0, untreated_tag := 0\<rparr>"

text \<open>
  The constructor: the member initialisers, then \<^verbatim>\<open>clear()\<close> when
  \<^verbatim>\<open>part_start < 0 || part_size <= 0\<close>.
\<close>

definition untreatedpart_ctor :: "off_t \<Rightarrow> off_t \<Rightarrow> long \<Rightarrow> untreatedpart" where
  "untreatedpart_ctor part_start part_size part_untreated_tag =
     (let r = \<lparr>start = part_start, size_up = part_size, untreated_tag = part_untreated_tag\<rparr>
      in if part_start <s 0 \<or> part_size <=s 0 then clear r else r)"

text \<open>\<^verbatim>\<open>bool check_overlap(off_t chk_start, off_t chk_size)\<close>.\<close>

definition check_overlap :: "untreatedpart \<Rightarrow> off_t \<Rightarrow> off_t \<Rightarrow> bool" where
  "check_overlap r chk_start chk_size =
     (if chk_start <s 0 \<or> chk_size <=s 0 \<or> (chk_start + chk_size) <s start r
         \<or> (start r + size_up r) <s chk_start
      then False
      else True)"

text \<open>
  \<^verbatim>\<open>bool stretch(off_t add_start, off_t add_size, long tag)\<close>: the result and the
  object after the call.
\<close>

definition stretch :: "untreatedpart \<Rightarrow> off_t \<Rightarrow> off_t \<Rightarrow> long \<Rightarrow> bool \<times> untreatedpart" where
  "stretch r add_start add_size tag =
     (if \<not> check_overlap r add_start add_size then (False, r)
      else
        let new_start = std_min (start r) add_start;
            new_next_start = std_max (start r + size_up r) (add_start + add_size)
        in (True, r\<lparr>start := new_start,
                     size_up := new_next_start - new_start,
                     untreated_tag := tag\<rparr>))"

text \<open>
  The meaning of a range over the integers, for the statements about intervals:
  \<open>[s, s + n)\<close> and \<open>[s', s' + n')\<close> share a byte when the larger start lies before the
  smaller end, and are adjacent when one ends where the other starts. The largest
  \<^verbatim>\<open>off_t\<close> is \<open>off_t_max\<close>; \<open>valid_range\<close> is what the constructor establishes.
\<close>

definition shares_byte :: "int \<Rightarrow> int \<Rightarrow> int \<Rightarrow> int \<Rightarrow> bool" where
  "shares_byte s n s' n' = (max s s' < min (s + n) (s' + n'))"

definition adjacent :: "int \<Rightarrow> int \<Rightarrow> int \<Rightarrow> int \<Rightarrow> bool" where
  "adjacent s n s' n' = (s + n = s' \<or> s' + n' = s)"

definition off_t_max :: int where
  "off_t_max = 2 ^ 63 - 1"

definition valid_range :: "untreatedpart \<Rightarrow> bool" where
  "valid_range r = ((0 <=s start r \<and> 0 <s size_up r) \<or> (start r = 0 \<and> size_up r = 0))"

section \<open>etagpair, etaglist_t and filepart\<close>

text \<open>
  \<^verbatim>\<open>struct etagpair { std::string etag; int part_num; ... }\<close>. The constructor
  \<^verbatim>\<open>etagpair(const char* petag = NULL, int part = -1)\<close> stores the empty string for a
  null \<^verbatim>\<open>petag\<close>.
\<close>

record etagpair =
  etag :: string
  part_num :: c_int

definition etagpair_ctor :: "string option \<Rightarrow> c_int \<Rightarrow> etagpair" where
  "etagpair_ctor petag part =
     \<lparr>etag = (case petag of None \<Rightarrow> [] | Some s \<Rightarrow> s), part_num = part\<rparr>"

text \<open>
  \<^verbatim>\<open>typedef std::list<etagpair> etaglist_t\<close>. \<^verbatim>\<open>filepart\<close> keeps a pointer to an element
  of the list, so the list is modelled with its memory: \<open>nodes\<close> maps the address of a
  list node to the \<^verbatim>\<open>etagpair\<close> it holds, \<open>chain\<close> gives the addresses of the nodes in
  list order. A \<^verbatim>\<open>std::list\<close> is a doubly-linked list: \<^verbatim>\<open>push_back\<close> allocates one new
  node, links it after the last one, and moves or copies no other element.
  \<open>fresh_addr\<close> is the allocator: an address above every node of the list.
\<close>

type_synonym addr = nat

record etaglist_t =
  nodes :: "addr \<Rightarrow> etagpair option"
  chain :: "addr list"

definition list_size :: "etaglist_t \<Rightarrow> nat" where
  "list_size l = length (chain l)"

definition fresh_addr :: "addr list \<Rightarrow> addr" where
  "fresh_addr as = Suc (fold max as 0)"

definition push_back :: "etaglist_t \<Rightarrow> etagpair \<Rightarrow> etaglist_t" where
  "push_back l v =
     (let a = fresh_addr (chain l)
      in l\<lparr>nodes := (nodes l)(a \<mapsto> v), chain := chain l @ [a]\<rparr>)"

text \<open>\<^verbatim>\<open>&list.back()\<close>, the address of the last node (called on a non-empty list).\<close>

definition back_addr :: "etaglist_t \<Rightarrow> addr" where
  "back_addr l = last (chain l)"

text \<open>The elements of the list in order, read through the memory.\<close>

definition elements :: "etaglist_t \<Rightarrow> etagpair option list" where
  "elements l = map (nodes l) (chain l)"

text \<open>
  \<^verbatim>\<open>struct filepart\<close>. The fields \<^verbatim>\<open>etag\<close> and \<^verbatim>\<open>size\<close> are \<open>etag_fp\<close> and \<open>size_fp\<close>
  here. The pointers \<^verbatim>\<open>petag\<close> and \<^verbatim>\<open>streambuffer\<close> are optional addresses, \<open>None\<close>
  for \<^verbatim>\<open>NULL\<close>.
\<close>

record filepart =
  uploaded :: bool
  etag_fp :: string
  fd :: c_int
  startpos :: off_t
  size_fp :: off_t
  is_copy :: bool
  petag :: "addr option"
  streambuffer :: "addr option"
  streampos :: off_t

text \<open>
  The constructor
  \<^verbatim>\<open>filepart(bool is_uploaded = false, int _fd = -1, off_t part_start = 0,
    off_t part_size = -1, bool is_copy_part = false, etagpair* petagpair = NULL)
    : uploaded(false), fd(_fd), startpos(part_start), size(part_size),
      is_copy(is_copy_part), petag(petagpair), streambuffer(NULL), streampos(0) {}\<close>;
  \<^verbatim>\<open>etag\<close> is default-constructed, the empty string.
\<close>

definition filepart_ctor ::
  "bool \<Rightarrow> c_int \<Rightarrow> off_t \<Rightarrow> off_t \<Rightarrow> bool \<Rightarrow> addr option \<Rightarrow> filepart" where
  "filepart_ctor is_uploaded fd' part_start part_size is_copy_part petagpair =
     \<lparr>uploaded = False, etag_fp = [], fd = fd', startpos = part_start, size_fp = part_size,
      is_copy = is_copy_part, petag = petagpair, streambuffer = None, streampos = 0\<rparr>"

text \<open>
  \<^verbatim>\<open>void add_etag_list(etaglist_t& list, int partnum = -1)\<close>: the part and the list
  after the call. \<^verbatim>\<open>static_cast<int>(list.size())\<close> keeps the low 32 bits of the size.
\<close>

definition add_etag_list :: "filepart \<Rightarrow> etaglist_t \<Rightarrow> c_int \<Rightarrow> filepart \<times> etaglist_t" where
  "add_etag_list p l partnum =
     (let partnum' = (if - 1 = partnum then of_nat (list_size l) + 1 else partnum);
          l' = push_back l (etagpair_ctor None partnum')
      in (p\<lparr>petag := Some (back_addr l')\<rparr>, l'))"


text \<open>
  \<^verbatim>\<open>int get_part_number()\<close>, reading \<^verbatim>\<open>petag->part_num\<close> in the memory of the list;
  \<open>None\<close> when \<^verbatim>\<open>petag\<close> points to no node.
\<close>

definition get_part_number :: "filepart \<Rightarrow> etaglist_t \<Rightarrow> c_int option" where
  "get_part_number p l =
     (case petag p of
        None \<Rightarrow> Some (- 1)
      | Some a \<Rightarrow> map_option part_num (nodes l a))"

text \<open>
  Later insertions into the same list: each is a call of \<open>add_etag_list\<close> by some part
  with some part number argument.
\<close>

fun add_many :: "etaglist_t \<Rightarrow> (filepart \<times> c_int) list \<Rightarrow> etaglist_t" where
  "add_many l [] = l"
| "add_many l ((p, partnum) # calls) = add_many (snd (add_etag_list p l partnum)) calls"

text \<open>The empty list, with nothing allocated.\<close>

definition empty_list :: etaglist_t where
  "empty_list = \<lparr>nodes = Map.empty, chain = []\<rparr>"

section \<open>acl_t\<close>

text \<open>
  \<^verbatim>\<open>enum Value { PRIVATE, PUBLIC_READ, PUBLIC_READ_WRITE, DEFAULT, UNKNOWN }\<close>, and the
  integer each enumerator stands for. An \<^verbatim>\<open>acl_t\<close> object holds the member \<^verbatim>\<open>value_\<close>,
  an integer of the enumeration's underlying type: the constructor takes an enumerator,
  but the type also has values that are no enumerator, for which the \<^verbatim>\<open>switch\<close> of
  \<^verbatim>\<open>str()\<close> falls through to \<^verbatim>\<open>abort()\<close>.
\<close>

datatype Value = PRIVATE | PUBLIC_READ | PUBLIC_READ_WRITE | DEFAULT | UNKNOWN

fun enumerator :: "Value \<Rightarrow> nat" where
  "enumerator PRIVATE = 0"
| "enumerator PUBLIC_READ = 1"
| "enumerator PUBLIC_READ_WRITE = 2"
| "enumerator DEFAULT = 3"
| "enumerator UNKNOWN = 4"

datatype acl_t = Acl nat

definition acl_t_ctor :: "Value \<Rightarrow> acl_t" where
  "acl_t_ctor v = Acl (enumerator v)"

text \<open>A call either returns a value or ends the process in \<^verbatim>\<open>abort()\<close>.\<close>

datatype 'a outcome = Return 'a | Abort

text \<open>\<^verbatim>\<open>const char* str() const\<close>; \<open>None\<close> is the \<^verbatim>\<open>NULL\<close> pointer.\<close>

fun str :: "acl_t \<Rightarrow> string option outcome" where
  "str (Acl n) =
     (if n = enumerator PRIVATE then Return (Some ''private'')
      else if n = enumerator PUBLIC_READ then Return (Some ''public-read'')
      else if n = enumerator PUBLIC_READ_WRITE then Return (Some ''public-read-write'')
      else if n = enumerator DEFAULT then Return (Some ''default'')
      else if n = enumerator UNKNOWN then Return None
      else Abort)"

text \<open>
  \<^verbatim>\<open>strcmp\<close> of the C library on the bytes two pointers point to: it compares byte by
  byte as \<^verbatim>\<open>unsigned char\<close> and stops at the first difference or at a NUL. The end of
  a list is the terminating NUL. \<open>c_str\<close> is the C string a byte sequence holds: the
  bytes before the first NUL.
\<close>

definition NUL :: char where
  "NUL = CHR 0x00"

fun strcmp :: "string \<Rightarrow> string \<Rightarrow> int" where
  "strcmp [] [] = 0"
| "strcmp [] (y # ys) = - int (of_char y)"
| "strcmp (x # xs) [] = int (of_char x)"
| "strcmp (x # xs) (y # ys) =
     (if x \<noteq> y then int (of_char x) - int (of_char y)
      else if x = NUL then 0
      else strcmp xs ys)"

definition c_str :: "string \<Rightarrow> string" where
  "c_str s = takeWhile (\<lambda>c. c \<noteq> NUL) s"

text \<open>\<^verbatim>\<open>static acl_t from_str(const char *acl)\<close>.\<close>

definition from_str :: "string \<Rightarrow> acl_t" where
  "from_str acl =
     (if 0 = strcmp acl ''private'' then acl_t_ctor PRIVATE
      else if 0 = strcmp acl ''public-read'' then acl_t_ctor PUBLIC_READ
      else if 0 = strcmp acl ''public-read-write'' then acl_t_ctor PUBLIC_READ_WRITE
      else if 0 = strcmp acl ''default'' then acl_t_ctor DEFAULT
      else acl_t_ctor UNKNOWN)"

text \<open>The four canonical strings.\<close>

definition canonical :: "string list" where
  "canonical = [''private'', ''public-read'', ''public-read-write'', ''default'']"

section \<open>Properties of untreatedpart\<close>

subsection \<open>Signed arithmetic on offsets\<close>

lemma shares_byte_iff:
  "shares_byte s n s' n' \<longleftrightarrow> (\<exists>b. s \<le> b \<and> b < s + n \<and> s' \<le> b \<and> b < s' + n')"
proof
  assume "shares_byte s n s' n'"
  then have "s \<le> max s s' \<and> max s s' < s + n \<and> s' \<le> max s s' \<and> max s s' < s' + n'"
    by (simp add: shares_byte_def)
  then show "\<exists>b. s \<le> b \<and> b < s + n \<and> s' \<le> b \<and> b < s' + n'" ..
next
  assume "\<exists>b. s \<le> b \<and> b < s + n \<and> s' \<le> b \<and> b < s' + n'"
  then show "shares_byte s n s' n'"
    by (auto simp: shares_byte_def)
qed

text \<open>A sum of two offsets that lies in the range of \<^verbatim>\<open>off_t\<close> does not wrap.\<close>

lemma sint_off_t_add:
  fixes a b :: off_t
  assumes "- (2 ^ 63) \<le> sint a + sint b" "sint a + sint b \<le> off_t_max"
  shows "sint (a + b) = sint a + sint b"
  using assms by (simp add: off_t_max_def sint_word_ariths signed_take_bit_int_eq_self)

lemma sint_off_t_ge: "- (2 ^ 63) \<le> sint (a :: off_t)"
  using sint_ge [of a] by simp

text \<open>
  For intervals that are not empty, sharing a byte or being adjacent is: each starts no
  later than the other ends.
\<close>

lemma touch_iff:
  assumes "0 < n" "0 < n'"
  shows "(shares_byte s n s' n' \<or> adjacent s n s' n') = (s' \<le> s + n \<and> s \<le> s' + n')"
  using assms by (auto simp: shares_byte_def adjacent_def)

subsection \<open>Merging\<close>

text \<open>
  C1, as amended. For a range with \<open>start \<ge> 0\<close> and \<open>size > 0\<close> and an added range with
  \<open>add_start \<ge> 0\<close> and \<open>add_size > 0\<close>, both with an end (\<open>start + size\<close>,
  \<open>add_start + add_size\<close>) that is at most the largest \<^verbatim>\<open>off_t\<close>, such that the intervals
  \<open>[start, start + size)\<close> and \<open>[add_start, add_start + add_size)\<close> share a byte or are
  adjacent: \<open>stretch\<close> returns true, and afterwards the range is exactly the union
  interval over the integers: the start is the smaller of the two starts, start plus
  size is the larger of the two ends, and the tag is the new tag.
\<close>

theorem stretch_union_representable:
  assumes recv: "0 <=s start r" "0 <s size_up r"
      and add: "0 <=s add_start" "0 <s add_size"
      and rep: "sint (start r) + sint (size_up r) \<le> off_t_max"
               "sint add_start + sint add_size \<le> off_t_max"
      and touch: "shares_byte (sint (start r)) (sint (size_up r)) (sint add_start) (sint add_size)
                  \<or> adjacent (sint (start r)) (sint (size_up r)) (sint add_start) (sint add_size)"
  shows "fst (stretch r add_start add_size tag) = True
       \<and> sint (start (snd (stretch r add_start add_size tag)))
           = min (sint (start r)) (sint add_start)
       \<and> sint (start (snd (stretch r add_start add_size tag)))
           + sint (size_up (snd (stretch r add_start add_size tag)))
           = max (sint (start r) + sint (size_up r)) (sint add_start + sint add_size)
       \<and> untreated_tag (snd (stretch r add_start add_size tag)) = tag"
proof -
  have c: "0 \<le> sint add_start" "0 < sint add_size" "0 \<le> sint (start r)" "0 < sint (size_up r)"
    using recv add by (simp_all add: word_sle_eq word_sless_alt)
  have t: "sint add_start \<le> sint (start r) + sint (size_up r)"
          "sint (start r) \<le> sint add_start + sint add_size"
    using touch c touch_iff [of "sint (size_up r)" "sint add_size" "sint (start r)" "sint add_start"]
    by simp_all
  have e1: "sint (add_start + add_size) = sint add_start + sint add_size"
    using c rep by (simp add: sint_off_t_add)
  have e2: "sint (start r + size_up r) = sint (start r) + sint (size_up r)"
    using c rep by (simp add: sint_off_t_add)
  have ov: "check_overlap r add_start add_size"
    using c e1 e2 t by (auto simp: check_overlap_def word_sless_alt word_sle_eq)
  let ?ns = "std_min (start r) add_start"
  let ?ne = "std_max (start r + size_up r) (add_start + add_size)"
  have ns: "sint ?ns = min (sint (start r)) (sint add_start)"
    by (auto simp: std_min_def word_sless_alt)
  have ne: "sint ?ne = max (sint (start r) + sint (size_up r)) (sint add_start + sint add_size)"
    using e1 e2 by (auto simp: std_max_def word_sless_alt)
  have bounds: "0 \<le> sint ?ns" "sint ?ns \<le> sint ?ne" "sint ?ne \<le> off_t_max"
    using c rep ns ne by auto
  have "sint (?ne - ?ns) = sint ?ne - sint ?ns"
    using bounds by (simp add: off_t_max_def sint_word_ariths signed_take_bit_int_eq_self)
  then show ?thesis
    using ov ns ne by (simp add: stretch_def Let_def)
qed

text \<open>The range \<open>[0, 10)\<close> with tag 7, stretched by \<open>[5, 15)\<close> with tag 9.\<close>

theorem stretch_union_representable_witness:
  "0 <=s start \<lparr>start = 0, size_up = 10, untreated_tag = 7\<rparr>
   \<and> 0 <s size_up \<lparr>start = 0, size_up = 10, untreated_tag = 7\<rparr>
   \<and> 0 <=s (5 :: off_t) \<and> 0 <s (10 :: off_t)
   \<and> sint (0 :: off_t) + sint (10 :: off_t) \<le> off_t_max
   \<and> sint (5 :: off_t) + sint (10 :: off_t) \<le> off_t_max
   \<and> shares_byte (sint (0 :: off_t)) (sint (10 :: off_t)) (sint (5 :: off_t)) (sint (10 :: off_t))
   \<and> fst (stretch \<lparr>start = 0, size_up = 10, untreated_tag = 7\<rparr> 5 10 9) = True
   \<and> sint (start (snd (stretch \<lparr>start = 0, size_up = 10, untreated_tag = 7\<rparr> 5 10 9))) = 0
   \<and> sint (start (snd (stretch \<lparr>start = 0, size_up = 10, untreated_tag = 7\<rparr> 5 10 9)))
       + sint (size_up (snd (stretch \<lparr>start = 0, size_up = 10, untreated_tag = 7\<rparr> 5 10 9))) = 15
   \<and> untreated_tag (snd (stretch \<lparr>start = 0, size_up = 10, untreated_tag = 7\<rparr> 5 10 9)) = 9"
proof -
  let ?r = "\<lparr>start = 0, size_up = 10, untreated_tag = 7 :: long\<rparr>"
  have h: "0 <=s start ?r" "0 <s size_up ?r" "0 <=s (5 :: off_t)" "0 <s (10 :: off_t)"
    "sint (start ?r) + sint (size_up ?r) \<le> off_t_max"
    "sint (5 :: off_t) + sint (10 :: off_t) \<le> off_t_max"
    by (simp_all add: word_sle_eq word_sless_alt off_t_max_def)
  have s: "shares_byte (sint (0 :: off_t)) (sint (10 :: off_t)) (sint (5 :: off_t)) (sint (10 :: off_t))"
    by (simp add: shares_byte_def)
  have t: "shares_byte (sint (start ?r)) (sint (size_up ?r)) (sint (5 :: off_t)) (sint (10 :: off_t))
           \<or> adjacent (sint (start ?r)) (sint (size_up ?r)) (sint (5 :: off_t)) (sint (10 :: off_t))"
    using s by simp
  from stretch_union_representable [OF h t, of 9] h s show ?thesis
    by simp
qed

text \<open>
  The claim without the bound on the ends fails: the range \<open>[0, 2^63 - 1)\<close> and the added
  range of start 1 and size \<open>2^63 - 1\<close> share bytes, but the end of the added range is
  not an \<^verbatim>\<open>off_t\<close>; \<^verbatim>\<open>add_start + add_size\<close> comes out negative, below \<^verbatim>\<open>start\<close>, and
  \<open>stretch\<close> returns false and changes nothing.
\<close>

theorem stretch_union_overflow:
  "0 <=s start \<lparr>start = 0, size_up = 0x7FFFFFFFFFFFFFFF, untreated_tag = 1\<rparr>
   \<and> 0 <s size_up \<lparr>start = 0, size_up = 0x7FFFFFFFFFFFFFFF, untreated_tag = 1\<rparr>
   \<and> 0 <=s (1 :: off_t) \<and> 0 <s (0x7FFFFFFFFFFFFFFF :: off_t)
   \<and> shares_byte (sint (0 :: off_t)) (sint (0x7FFFFFFFFFFFFFFF :: off_t))
        (sint (1 :: off_t)) (sint (0x7FFFFFFFFFFFFFFF :: off_t))
   \<and> stretch \<lparr>start = 0, size_up = 0x7FFFFFFFFFFFFFFF, untreated_tag = 1\<rparr> 1 0x7FFFFFFFFFFFFFFF 2
       = (False, \<lparr>start = 0, size_up = 0x7FFFFFFFFFFFFFFF, untreated_tag = 1\<rparr>)"
  by (simp add: stretch_def check_overlap_def shares_byte_def word_sle_eq word_sless_alt)

subsection \<open>Overlap test\<close>

text \<open>
  C2, as amended. For every range with \<open>size > 0\<close>, and for the zero range, and every
  \<open>chk_start \<ge> 0\<close>, \<open>chk_size > 0\<close>, when both ends (\<open>start + size\<close>,
  \<open>chk_start + chk_size\<close>) are at most the largest \<^verbatim>\<open>off_t\<close>: \<open>check_overlap\<close> returns
  true if and only if the two intervals share at least one byte or are adjacent with no
  gap, that is, it returns the value of
  \<^verbatim>\<open>!((chk_start + chk_size) < start || (start + size) < chk_start)\<close> with the sums taken
  over the integers. In particular \<open>[10, 15)\<close> is reported as mergeable with \<open>[0, 10)\<close>,
  and stretching yields exactly \<open>[0, 15)\<close>.
\<close>

theorem check_overlap_representable:
  assumes chk: "0 <=s chk_start" "0 <s chk_size"
      and recv: "0 <s size_up r \<or> (start r = 0 \<and> size_up r = 0)"
      and rep: "sint (start r) + sint (size_up r) \<le> off_t_max"
               "sint chk_start + sint chk_size \<le> off_t_max"
  shows "check_overlap r chk_start chk_size
           = (shares_byte (sint (start r)) (sint (size_up r)) (sint chk_start) (sint chk_size)
              \<or> adjacent (sint (start r)) (sint (size_up r)) (sint chk_start) (sint chk_size))
       \<and> check_overlap r chk_start chk_size
           = (\<not> (sint chk_start + sint chk_size < sint (start r)
                 \<or> sint (start r) + sint (size_up r) < sint chk_start))
       \<and> check_overlap (untreatedpart_ctor 0 10 t) 10 5
       \<and> stretch (untreatedpart_ctor 0 10 t) 10 5 t'
           = (True, \<lparr>start = 0, size_up = 15, untreated_tag = t'\<rparr>)"
proof -
  have c: "0 \<le> sint chk_start" "0 < sint chk_size"
    using chk by (simp_all add: word_sle_eq word_sless_alt)
  have r: "0 < sint (size_up r) \<or> (sint (start r) = 0 \<and> sint (size_up r) = 0)"
    using recv by (auto simp: word_sless_alt)
  have lo: "- (2 ^ 63) \<le> sint (start r) + sint (size_up r)"
    using r sint_off_t_ge [of "start r"] by auto
  have e1: "sint (chk_start + chk_size) = sint chk_start + sint chk_size"
    using c rep by (simp add: sint_off_t_add)
  have e2: "sint (start r + size_up r) = sint (start r) + sint (size_up r)"
    using lo rep(1) by (rule sint_off_t_add)
  have f: "check_overlap r chk_start chk_size
          = (\<not> (sint chk_start + sint chk_size < sint (start r)
                \<or> sint (start r) + sint (size_up r) < sint chk_start))"
    using c e1 e2 by (auto simp: check_overlap_def word_sless_alt word_sle_eq)
  have "(\<not> (sint chk_start + sint chk_size < sint (start r)
                \<or> sint (start r) + sint (size_up r) < sint chk_start))
        = (shares_byte (sint (start r)) (sint (size_up r)) (sint chk_start) (sint chk_size)
              \<or> adjacent (sint (start r)) (sint (size_up r)) (sint chk_start) (sint chk_size))"
    using c r by (auto simp: shares_byte_def adjacent_def)
  with f have g: "check_overlap r chk_start chk_size
           = (shares_byte (sint (start r)) (sint (size_up r)) (sint chk_start) (sint chk_size)
              \<or> adjacent (sint (start r)) (sint (size_up r)) (sint chk_start) (sint chk_size))"
    by simp
  have ex: "untreatedpart_ctor 0 10 t = \<lparr>start = 0, size_up = 10, untreated_tag = t\<rparr>"
    by (simp add: untreatedpart_ctor_def word_sless_alt word_sle_eq)
  have ov: "check_overlap \<lparr>start = 0, size_up = 10, untreated_tag = t\<rparr> 10 5"
    by (simp add: check_overlap_def word_sless_alt word_sle_eq)
  have st: "stretch \<lparr>start = 0, size_up = 10, untreated_tag = t\<rparr> 10 5 t'
              = (True, \<lparr>start = 0, size_up = 15, untreated_tag = t'\<rparr>)"
    using ov by (simp add: stretch_def std_min_def std_max_def word_sless_alt)
  show ?thesis
    using f g ex ov st by simp
qed

text \<open>
  The receiver \<open>[0, 10)\<close>: the adjacent \<open>[10, 15)\<close> is accepted, \<open>[16, 21)\<close>, one byte
  further, is not.
\<close>

theorem check_overlap_representable_witness:
  "0 <=s (10 :: off_t) \<and> 0 <s (5 :: off_t) \<and> 0 <=s (16 :: off_t)
   \<and> 0 <s size_up \<lparr>start = 0, size_up = 10, untreated_tag = 3\<rparr>
   \<and> sint (0 :: off_t) + sint (10 :: off_t) \<le> off_t_max
   \<and> sint (10 :: off_t) + sint (5 :: off_t) \<le> off_t_max
   \<and> sint (16 :: off_t) + sint (5 :: off_t) \<le> off_t_max
   \<and> adjacent 0 10 10 5
   \<and> check_overlap \<lparr>start = 0, size_up = 10, untreated_tag = 3\<rparr> 10 5 = True
   \<and> \<not> shares_byte 0 10 16 5 \<and> \<not> adjacent 0 10 16 5
   \<and> check_overlap \<lparr>start = 0, size_up = 10, untreated_tag = 3\<rparr> 16 5 = False
   \<and> stretch (untreatedpart_ctor 0 10 3) 10 5 4 = (True, \<lparr>start = 0, size_up = 15, untreated_tag = 4\<rparr>)"
proof -
  let ?r = "\<lparr>start = 0, size_up = 10, untreated_tag = 3 :: long\<rparr>"
  have h: "0 <=s (10 :: off_t)" "0 <s (5 :: off_t)"
    by (simp_all add: word_sle_eq word_sless_alt)
  have h': "0 <=s (16 :: off_t)" "0 <s (5 :: off_t)"
    by (simp_all add: word_sle_eq word_sless_alt)
  have v: "0 <s size_up ?r \<or> (start ?r = 0 \<and> size_up ?r = 0)"
    by (simp add: word_sless_alt)
  have rep: "sint (start ?r) + sint (size_up ?r) \<le> off_t_max"
    "sint (10 :: off_t) + sint (5 :: off_t) \<le> off_t_max"
    "sint (16 :: off_t) + sint (5 :: off_t) \<le> off_t_max"
    by (simp_all add: off_t_max_def)
  have a: "adjacent 0 10 10 5" "\<not> shares_byte 0 10 16 5" "\<not> adjacent 0 10 16 5"
    by (simp_all add: adjacent_def shares_byte_def)
  have p: "0 <s size_up ?r" "sint (0 :: off_t) + sint (10 :: off_t) \<le> off_t_max"
    by (simp_all add: word_sless_alt off_t_max_def)
  from check_overlap_representable [OF h v rep(1) rep(2), of 3 4]
    check_overlap_representable [OF h' v rep(1) rep(3), of 3 4] h h' p rep a
  show ?thesis
    by simp
qed

text \<open>
  The claim without these conditions fails. At the top of the offsets: the range of start
  \<open>2^63 - 1\<close> and size 1, which the constructor accepts, and the adjacent
  \<open>[2^63 - 2, 2^63 - 1)\<close> are not reported, nor are the range of start \<open>2^63 - 11\<close> and
  size 10 and the range of start \<open>2^63 - 6\<close> and size 10, which share bytes;
  \<^verbatim>\<open>start + size\<close> comes out negative in the first, \<^verbatim>\<open>chk_start + chk_size\<close> in the second.
  With an empty range away from the origin (the fields are public): start 5 and size 0
  against \<open>[3, 13)\<close> is reported, with no byte shared and no adjacency.
\<close>

theorem check_overlap_overflow:
  "untreatedpart_ctor 0x7FFFFFFFFFFFFFFF 1 1
     = \<lparr>start = 0x7FFFFFFFFFFFFFFF, size_up = 1, untreated_tag = 1\<rparr>
   \<and> 0 <=s (0x7FFFFFFFFFFFFFFE :: off_t) \<and> 0 <s (1 :: off_t)
   \<and> adjacent (sint (0x7FFFFFFFFFFFFFFF :: off_t)) (sint (1 :: off_t))
        (sint (0x7FFFFFFFFFFFFFFE :: off_t)) (sint (1 :: off_t))
   \<and> check_overlap (untreatedpart_ctor 0x7FFFFFFFFFFFFFFF 1 1) 0x7FFFFFFFFFFFFFFE 1 = False
   \<and> untreatedpart_ctor 0x7FFFFFFFFFFFFFF5 10 1
     = \<lparr>start = 0x7FFFFFFFFFFFFFF5, size_up = 10, untreated_tag = 1\<rparr>
   \<and> 0 <=s (0x7FFFFFFFFFFFFFFA :: off_t) \<and> 0 <s (10 :: off_t)
   \<and> shares_byte (sint (0x7FFFFFFFFFFFFFF5 :: off_t)) (sint (10 :: off_t))
        (sint (0x7FFFFFFFFFFFFFFA :: off_t)) (sint (10 :: off_t))
   \<and> check_overlap (untreatedpart_ctor 0x7FFFFFFFFFFFFFF5 10 1) 0x7FFFFFFFFFFFFFFA 10 = False
   \<and> 0 <=s (3 :: off_t)
   \<and> \<not> shares_byte (sint (5 :: off_t)) (sint (0 :: off_t)) (sint (3 :: off_t)) (sint (10 :: off_t))
   \<and> \<not> adjacent (sint (5 :: off_t)) (sint (0 :: off_t)) (sint (3 :: off_t)) (sint (10 :: off_t))
   \<and> check_overlap \<lparr>start = 5, size_up = 0, untreated_tag = 0\<rparr> 3 10 = True"
  by (simp add: untreatedpart_ctor_def check_overlap_def shares_byte_def adjacent_def
      word_sle_eq word_sless_alt)

subsection \<open>Invalid input\<close>

text \<open>
  C3. For every range and every invalid input (\<open>add_start < 0\<close> or \<open>add_size \<le> 0\<close>),
  \<open>check_overlap\<close> returns false, and \<open>stretch\<close> returns false and leaves start,
  size and tag exactly as they were.
\<close>

theorem invalid_input_noop:
  assumes "add_start <s 0 \<or> add_size <=s 0"
  shows "check_overlap r add_start add_size = False
       \<and> stretch r add_start add_size tag = (False, r)"
  using assms by (auto simp: stretch_def check_overlap_def)

theorem invalid_input_noop_witness:
  "((-1 :: off_t) <s 0 \<or> (4 :: off_t) <=s 0)
   \<and> check_overlap \<lparr>start = 0, size_up = 10, untreated_tag = 3\<rparr> (-1) 4 = False
   \<and> stretch \<lparr>start = 0, size_up = 10, untreated_tag = 3\<rparr> (-1) 4 8
       = (False, \<lparr>start = 0, size_up = 10, untreated_tag = 3\<rparr>)
   \<and> ((2 :: off_t) <s 0 \<or> (0 :: off_t) <=s 0)
   \<and> stretch \<lparr>start = 0, size_up = 10, untreated_tag = 3\<rparr> 2 0 8
       = (False, \<lparr>start = 0, size_up = 10, untreated_tag = 3\<rparr>)"
proof -
  have h1: "(-1 :: off_t) <s 0 \<or> (4 :: off_t) <=s 0"
    by (simp add: word_sless_alt)
  have h2: "(2 :: off_t) <s 0 \<or> (0 :: off_t) <=s 0"
    by simp
  from invalid_input_noop [OF h1] invalid_input_noop [OF h2] h1 h2 show ?thesis
    by blast
qed

subsection \<open>Construction\<close>

text \<open>
  C4. For every pair of constructor arguments: if \<open>part_start < 0\<close> or
  \<open>part_size \<le> 0\<close> the constructed range is the zero range (start, size and tag 0);
  otherwise it holds exactly the given start, size and tag. Either way the result has
  \<open>start \<ge> 0\<close> and \<open>size > 0\<close>, or is the zero range.
\<close>

theorem untreatedpart_ctor_normalizes:
  "(part_start <s 0 \<or> part_size <=s 0 \<longrightarrow>
       untreatedpart_ctor part_start part_size tag
         = \<lparr>start = 0, size_up = 0, untreated_tag = 0\<rparr>)
   \<and> (\<not> (part_start <s 0 \<or> part_size <=s 0) \<longrightarrow>
       untreatedpart_ctor part_start part_size tag
         = \<lparr>start = part_start, size_up = part_size, untreated_tag = tag\<rparr>)
   \<and> valid_range (untreatedpart_ctor part_start part_size tag)"
  by (auto simp: untreatedpart_ctor_def clear_def valid_range_def Let_def word_sless_alt word_sle_eq)

theorem untreatedpart_ctor_normalizes_witness:
  "untreatedpart_ctor (-3) 4 5 = \<lparr>start = 0, size_up = 0, untreated_tag = 0\<rparr>
   \<and> untreatedpart_ctor 3 0 5 = \<lparr>start = 0, size_up = 0, untreated_tag = 0\<rparr>
   \<and> untreatedpart_ctor 3 4 5 = \<lparr>start = 3, size_up = 4, untreated_tag = 5\<rparr>
   \<and> valid_range (untreatedpart_ctor 3 4 5)"
proof -
  have h: "(-3 :: off_t) <s 0" "(0 :: off_t) <=s 0" "\<not> ((3 :: off_t) <s 0 \<or> (4 :: off_t) <=s 0)"
    by (simp_all add: word_sless_alt word_sle_eq)
  from untreatedpart_ctor_normalizes [of "-3" 4 5] untreatedpart_ctor_normalizes [of 3 0 5]
    untreatedpart_ctor_normalizes [of 3 4 5] h
  show ?thesis
    by blast
qed

subsection \<open>The zero range\<close>

text \<open>
  C10. A cleared range (start 0, size 0) still reports overlap at the origin: for every
  \<open>n > 0\<close>, \<open>check_overlap(0, n)\<close> is true on it, and \<open>stretch(0, n, tag)\<close> succeeds
  and turns it into \<open>[0, n)\<close> with the given tag. The same holds for the
  default-constructed range.
\<close>

theorem zero_range_overlaps_origin:
  assumes "0 <s n"
  shows "check_overlap (clear r) 0 n
       \<and> stretch (clear r) 0 n tag = (True, \<lparr>start = 0, size_up = n, untreated_tag = tag\<rparr>)
       \<and> check_overlap (untreatedpart_ctor 0 0 0) 0 n
       \<and> stretch (untreatedpart_ctor 0 0 0) 0 n tag
           = (True, \<lparr>start = 0, size_up = n, untreated_tag = tag\<rparr>)"
  using assms
  by (auto simp: stretch_def check_overlap_def clear_def untreatedpart_ctor_def std_min_def
      std_max_def Let_def word_sless_alt word_sle_eq)

theorem zero_range_overlaps_origin_witness:
  "0 <s (8 :: off_t)
   \<and> clear \<lparr>start = 20, size_up = 4, untreated_tag = 6\<rparr> = \<lparr>start = 0, size_up = 0, untreated_tag = 0\<rparr>
   \<and> check_overlap (clear \<lparr>start = 20, size_up = 4, untreated_tag = 6\<rparr>) 0 8
   \<and> stretch (clear \<lparr>start = 20, size_up = 4, untreated_tag = 6\<rparr>) 0 8 2
       = (True, \<lparr>start = 0, size_up = 8, untreated_tag = 2\<rparr>)"
proof -
  have h: "0 <s (8 :: off_t)"
    by (simp add: word_sless_alt)
  from zero_range_overlaps_origin [OF h, of "\<lparr>start = 20, size_up = 4, untreated_tag = 6\<rparr>" 2] h
  show ?thesis
    by (simp add: clear_def)
qed

section \<open>Properties of the part list\<close>

subsection \<open>The list in memory\<close>

text \<open>The allocator returns an address that no node of the list has.\<close>

lemma fold_max_ge: "b \<le> fold max as (b::nat)"
proof (induction as arbitrary: b)
  case Nil
  show ?case by simp
next
  case (Cons a as)
  have "b \<le> max a b" by simp
  also have "\<dots> \<le> fold max as (max a b)" by (rule Cons.IH)
  finally show ?case by simp
qed

lemma fold_max_member: "a \<in> set as \<Longrightarrow> a \<le> fold max as (b::nat)"
proof (induction as arbitrary: b)
  case Nil
  then show ?case by simp
next
  case (Cons x as)
  show ?case
  proof (cases "a = x")
    case True
    have "a \<le> max x b" using True by simp
    also have "\<dots> \<le> fold max as (max x b)" by (rule fold_max_ge)
    finally show ?thesis by simp
  next
    case False
    with Cons.prems have "a \<in> set as" by simp
    then show ?thesis by (simp add: Cons.IH)
  qed
qed

lemma fresh_addr_new: "fresh_addr as \<notin> set as"
proof
  assume "fresh_addr as \<in> set as"
  then have "fresh_addr as \<le> fold max as 0" by (rule fold_max_member)
  then show False by (simp add: fresh_addr_def)
qed

lemma chain_push_back: "chain (push_back l v) = chain l @ [fresh_addr (chain l)]"
  by (simp add: push_back_def Let_def)

lemma nodes_push_back_new: "nodes (push_back l v) (fresh_addr (chain l)) = Some v"
  by (simp add: push_back_def Let_def)

lemma nodes_push_back_old: "a \<in> set (chain l) \<Longrightarrow> nodes (push_back l v) a = nodes l a"
  using fresh_addr_new [of "chain l"] by (auto simp: push_back_def Let_def)


lemma back_addr_push_back: "back_addr (push_back l v) = fresh_addr (chain l)"
  by (simp add: back_addr_def chain_push_back)

lemma snd_add_etag_list:
  "snd (add_etag_list p l partnum)
     = push_back l (etagpair_ctor None (if - 1 = partnum then of_nat (list_size l) + 1 else partnum))"
  by (simp add: add_etag_list_def Let_def)

lemma petag_add_etag_list:
  "petag (fst (add_etag_list p l partnum)) = Some (fresh_addr (chain l))"
  by (simp add: add_etag_list_def Let_def back_addr_push_back)

lemma add_many_nodes: "a \<in> set (chain l) \<Longrightarrow> nodes (add_many l calls) a = nodes l a"
proof (induction calls arbitrary: l)
  case Nil
  show ?case by simp
next
  case (Cons c calls)
  obtain p partnum where c: "c = (p, partnum)" by (cases c)
  let ?l = "snd (add_etag_list p l partnum)"
  have "a \<in> set (chain ?l)"
    using Cons.prems by (simp add: snd_add_etag_list chain_push_back)
  then have "nodes (add_many ?l calls) a = nodes ?l a" by (rule Cons.IH)
  also have "\<dots> = nodes l a"
    using Cons.prems by (simp add: snd_add_etag_list nodes_push_back_old)
  finally show ?case by (simp add: c)
qed

lemma add_many_chain:
  "take (length (chain l)) (chain (add_many l calls)) = chain l
   \<and> length (chain (add_many l calls)) = length (chain l) + length calls
   \<and> (\<forall>a \<in> set (chain l). a \<notin> set (drop (length (chain l)) (chain (add_many l calls))))"
proof (induction calls arbitrary: l)
  case Nil
  show ?case by simp
next
  case (Cons c calls)
  obtain p partnum where c: "c = (p, partnum)" by (cases c)
  let ?l = "snd (add_etag_list p l partnum)"
  let ?f = "fresh_addr (chain l)"
  have ch: "chain ?l = chain l @ [?f]"
    by (simp add: snd_add_etag_list chain_push_back)
  note ih = Cons.IH [of ?l]
  from ih have t: "take (Suc (length (chain l))) (chain (add_many ?l calls)) = chain l @ [?f]"
    by (simp add: ch)
  have "take (length (chain l)) (take (Suc (length (chain l))) (chain (add_many ?l calls)))
          = take (length (chain l)) (chain l @ [?f])"
    by (simp only: t)
  then have t1: "take (length (chain l)) (chain (add_many ?l calls)) = chain l"
    by (simp add: min_def)
  have len: "length (chain (add_many ?l calls)) = length (chain l) + length (c # calls)"
    using ih by (simp add: ch)
  have d: "drop (length (chain l)) (chain (add_many ?l calls))
             = ?f # drop (Suc (length (chain l))) (chain (add_many ?l calls))"
  proof -
    have "chain (add_many ?l calls)
            = take (Suc (length (chain l))) (chain (add_many ?l calls))
              @ drop (Suc (length (chain l))) (chain (add_many ?l calls))"
      by simp
    also have "\<dots> = chain l @ ?f # drop (Suc (length (chain l))) (chain (add_many ?l calls))"
      by (simp only: t) simp
    finally have "drop (length (chain l)) (chain (add_many ?l calls))
        = drop (length (chain l)) (chain l @ ?f # drop (Suc (length (chain l))) (chain (add_many ?l calls)))"
      by simp
    then show ?thesis by simp
  qed
  have fresh: "\<forall>a \<in> set (chain l). a \<notin> set (drop (length (chain l)) (chain (add_many ?l calls)))"
  proof
    fix a assume a: "a \<in> set (chain l)"
    then have "a \<noteq> ?f" using fresh_addr_new [of "chain l"] by auto
    moreover have "a \<notin> set (drop (Suc (length (chain l))) (chain (add_many ?l calls)))"
      using ih a by (simp add: ch)
    ultimately show "a \<notin> set (drop (length (chain l)) (chain (add_many ?l calls)))"
      by (simp add: d)
  qed
  show ?case
    using t1 len fresh by (simp add: c)
qed

subsection \<open>Part numbers\<close>




subsection \<open>Stability of the handle\<close>

text \<open>
  C8. The handle that \<open>add_etag_list\<close> stores in \<open>petag\<close> is the address of the appended
  node, and it stays valid through any number of later insertions into the same list:
  after them the address holds the same \<open>etagpair\<close>, the nodes that were in the list
  are still its first nodes in the same order, no later node has the handle's address,
  and the part number read through the handle is unchanged.
\<close>

theorem handle_stable:
  "let r = add_etag_list p l partnum; p1 = fst r; l1 = snd r;
       l2 = add_many l1 calls; a = back_addr l1
   in petag p1 = Some a
      \<and> nodes l1 a
          = Some (etagpair_ctor None (if - 1 = partnum then of_nat (list_size l) + 1 else partnum))
      \<and> nodes l2 a = nodes l1 a
      \<and> take (list_size l1) (chain l2) = chain l1
      \<and> a \<notin> set (drop (list_size l1) (chain l2))
      \<and> list_size l2 = list_size l1 + length calls
      \<and> get_part_number p1 l2 = get_part_number p1 l1"
proof -
  let ?l1 = "snd (add_etag_list p l partnum)"
  let ?p1 = "fst (add_etag_list p l partnum)"
  let ?a = "back_addr ?l1"
  let ?l2 = "add_many ?l1 calls"
  have a: "?a = fresh_addr (chain l)"
    by (simp add: snd_add_etag_list back_addr_push_back)
  have mem: "?a \<in> set (chain ?l1)"
    by (simp add: snd_add_etag_list chain_push_back back_addr_push_back)
  have 1: "petag ?p1 = Some ?a"
    by (simp add: a petag_add_etag_list)
  have 2: "nodes ?l1 ?a
      = Some (etagpair_ctor None (if - 1 = partnum then of_nat (list_size l) + 1 else partnum))"
    by (simp only: snd_add_etag_list back_addr_push_back nodes_push_back_new)
  have 3: "nodes ?l2 ?a = nodes ?l1 ?a"
    using mem by (rule add_many_nodes)
  have 4: "take (list_size ?l1) (chain ?l2) = chain ?l1"
    using add_many_chain [of ?l1 calls] by (simp add: list_size_def)
  have 5: "?a \<notin> set (drop (list_size ?l1) (chain ?l2))"
    using add_many_chain [of ?l1 calls] mem by (simp add: list_size_def)
  have 6: "list_size ?l2 = list_size ?l1 + length calls"
    using add_many_chain [of ?l1 calls] by (simp add: list_size_def)
  have 7: "get_part_number ?p1 ?l2 = get_part_number ?p1 ?l1"
    by (simp add: get_part_number_def 1 3)
  show ?thesis
    unfolding Let_def using 1 2 3 4 5 6 7 by blast
qed

text \<open>
  The first part of an empty list, then two more insertions: the nodes are at the
  addresses 1, 2, 3 and hold the part numbers 1, 2, 9.
\<close>

theorem handle_stable_witness:
  "(let r = add_etag_list (filepart_ctor False (- 1) 0 (- 1) False None) empty_list (- 1);
        p1 = fst r; l1 = snd r;
        l2 = add_many l1 [(filepart_ctor False (- 1) 0 (- 1) False None, - 1),
                          (filepart_ctor True 3 0 10 False None, 9)];
        a = back_addr l1
    in petag p1 = Some a
      \<and> nodes l1 a
          = Some (etagpair_ctor None (if - 1 = (- 1 :: c_int) then of_nat (list_size empty_list) + 1 else - 1))
      \<and> nodes l2 a = nodes l1 a
      \<and> take (list_size l1) (chain l2) = chain l1
      \<and> a \<notin> set (drop (list_size l1) (chain l2))
      \<and> list_size l2 = list_size l1 + length [(filepart_ctor False (- 1) 0 (- 1) False None, - 1 :: c_int),
                          (filepart_ctor True 3 0 10 False None, 9)]
      \<and> get_part_number p1 l2 = get_part_number p1 l1)
   \<and> chain (add_many (snd (add_etag_list (filepart_ctor False (- 1) 0 (- 1) False None) empty_list (- 1)))
        [(filepart_ctor False (- 1) 0 (- 1) False None, - 1),
         (filepart_ctor True 3 0 10 False None, 9)]) = [1, 2, 3]
   \<and> map (map_option part_num) (elements (add_many (snd (add_etag_list (filepart_ctor False (- 1) 0 (- 1) False None) empty_list (- 1)))
        [(filepart_ctor False (- 1) 0 (- 1) False None, - 1),
         (filepart_ctor True 3 0 10 False None, 9)])) = [Some 1, Some 2, Some 9]"
proof -
  have e: "chain (add_many (snd (add_etag_list (filepart_ctor False (- 1) 0 (- 1) False None) empty_list (- 1)))
        [(filepart_ctor False (- 1) 0 (- 1) False None, - 1),
         (filepart_ctor True 3 0 10 False None, 9)]) = [1, 2, 3]"
    by (simp add: add_etag_list_def push_back_def fresh_addr_def empty_list_def Let_def)
  have f: "map (map_option part_num) (elements (add_many (snd (add_etag_list (filepart_ctor False (- 1) 0 (- 1) False None) empty_list (- 1)))
        [(filepart_ctor False (- 1) 0 (- 1) False None, - 1),
         (filepart_ctor True 3 0 10 False None, 9)])) = [Some 1, Some 2, Some 9]"
    by (simp add: add_etag_list_def push_back_def fresh_addr_def empty_list_def Let_def
        elements_def list_size_def etagpair_ctor_def)
  from handle_stable [of "filepart_ctor False (- 1) 0 (- 1) False None" empty_list "- 1"
      "[(filepart_ctor False (- 1) 0 (- 1) False None, - 1), (filepart_ctor True 3 0 10 False None, 9)]"]
    e f
  show ?thesis
    by (intro conjI)
qed

section \<open>Properties of filepart\<close>

text \<open>
  C9. The constructor ignores its first argument: for every value of \<open>is_uploaded\<close>,
  also true, the constructed \<open>filepart\<close> has \<open>uploaded = false\<close>, and the object is the
  one constructed with \<open>is_uploaded = false\<close>.
\<close>

theorem filepart_ctor_never_uploaded:
  "uploaded (filepart_ctor is_uploaded fd' part_start part_size is_copy_part petagpair) = False
   \<and> filepart_ctor True fd' part_start part_size is_copy_part petagpair
       = filepart_ctor False fd' part_start part_size is_copy_part petagpair"
  by (simp add: filepart_ctor_def)

theorem filepart_ctor_never_uploaded_witness:
  "uploaded (filepart_ctor True 3 0 1024 False None) = False
   \<and> filepart_ctor True 3 0 1024 False None = filepart_ctor False 3 0 1024 False None"
  using filepart_ctor_never_uploaded [of True 3 0 1024 False None] by blast

section \<open>Properties of acl_t\<close>

subsection \<open>String comparison\<close>

lemma of_char_NUL: "(of_char c = (0::nat)) = (c = NUL)"
proof -
  have "of_char NUL = (0::nat)"
    by (simp add: NUL_def)
  then have "(of_char c = (0::nat)) = (of_char c = (of_char NUL :: nat))"
    by simp
  then show ?thesis
    by (simp only: of_char_eq_iff)
qed

lemma strcmp_literal:
  "NUL \<notin> set lit \<Longrightarrow> (strcmp s lit = 0) = (c_str s = lit)"
proof (induction s lit rule: strcmp.induct)
  case 1
  then show ?case by (simp add: c_str_def)
next
  case (2 y ys)
  then show ?case by (auto simp: c_str_def of_char_NUL)
next
  case (3 x xs)
  then show ?case by (auto simp: c_str_def of_char_NUL)
next
  case (4 x xs y ys)
  then show ?case by (auto simp: c_str_def)
qed

lemma c_str_id: "NUL \<notin> set s \<Longrightarrow> c_str s = s"
  by (auto simp: c_str_def)

lemma NUL_literals:
  "NUL \<notin> set ''private''" "NUL \<notin> set ''public-read''"
  "NUL \<notin> set ''public-read-write''" "NUL \<notin> set ''default''"
  by (simp_all add: NUL_def)

lemma from_str_c_str:
  "from_str acl =
     (if c_str acl = ''private'' then acl_t_ctor PRIVATE
      else if c_str acl = ''public-read'' then acl_t_ctor PUBLIC_READ
      else if c_str acl = ''public-read-write'' then acl_t_ctor PUBLIC_READ_WRITE
      else if c_str acl = ''default'' then acl_t_ctor DEFAULT
      else acl_t_ctor UNKNOWN)"
  using strcmp_literal [OF NUL_literals(1), of acl] strcmp_literal [OF NUL_literals(2), of acl]
    strcmp_literal [OF NUL_literals(3), of acl] strcmp_literal [OF NUL_literals(4), of acl]
  unfolding from_str_def
  by (simp only: eq_commute [of "0::int"])

subsection \<open>Conversion\<close>

text \<open>
  C6. For each of the four canonical strings \<open>s\<close>, \<open>str(from_str(s)) = s\<close>; every
  other string gives \<open>UNKNOWN\<close> (as a C string: the bytes before the first NUL), also
  the wrong-case \<open>PUBLIC-READ\<close>, the prefix \<open>public\<close> and the extension
  \<open>public-read-writer\<close> of a canonical string: no partial match, no case folding.
\<close>

theorem acl_round_trip:
  "str (from_str ''private'') = Return (Some ''private'')
   \<and> str (from_str ''public-read'') = Return (Some ''public-read'')
   \<and> str (from_str ''public-read-write'') = Return (Some ''public-read-write'')
   \<and> str (from_str ''default'') = Return (Some ''default'')
   \<and> (c_str s \<notin> set canonical \<longrightarrow> from_str s = acl_t_ctor UNKNOWN)
   \<and> (NUL \<notin> set s \<and> s \<notin> set canonical \<longrightarrow> from_str s = acl_t_ctor UNKNOWN)
   \<and> from_str ''PUBLIC-READ'' = acl_t_ctor UNKNOWN
   \<and> from_str ''public'' = acl_t_ctor UNKNOWN
   \<and> from_str ''public-read-writer'' = acl_t_ctor UNKNOWN"
proof -
  have lit: "c_str ''private'' = ''private''" "c_str ''public-read'' = ''public-read''"
    "c_str ''public-read-write'' = ''public-read-write''" "c_str ''default'' = ''default''"
    "c_str ''PUBLIC-READ'' = ''PUBLIC-READ''" "c_str ''public'' = ''public''"
    "c_str ''public-read-writer'' = ''public-read-writer''"
    by (simp_all add: c_str_def NUL_def)
  have rt: "str (from_str ''private'') = Return (Some ''private'')"
    "str (from_str ''public-read'') = Return (Some ''public-read'')"
    "str (from_str ''public-read-write'') = Return (Some ''public-read-write'')"
    "str (from_str ''default'') = Return (Some ''default'')"
    by (simp_all add: from_str_c_str lit acl_t_ctor_def)
  have other: "c_str s \<notin> set canonical \<longrightarrow> from_str s = acl_t_ctor UNKNOWN" for s
    by (simp add: from_str_c_str canonical_def)
  have other': "NUL \<notin> set s \<and> s \<notin> set canonical \<longrightarrow> from_str s = acl_t_ctor UNKNOWN"
    using other [of s] by (auto simp: c_str_id)
  have ex: "from_str ''PUBLIC-READ'' = acl_t_ctor UNKNOWN"
    "from_str ''public'' = acl_t_ctor UNKNOWN"
    "from_str ''public-read-writer'' = acl_t_ctor UNKNOWN"
    by (simp_all add: from_str_c_str lit)
  show ?thesis
    using rt other other' ex by blast
qed

theorem acl_round_trip_witness:
  "c_str ''Private'' \<notin> set canonical \<and> NUL \<notin> set ''Private'' \<and> ''Private'' \<notin> set canonical
   \<and> from_str ''Private'' = acl_t_ctor UNKNOWN
   \<and> str (from_str ''public-read-write'') = Return (Some ''public-read-write'')
   \<and> from_str ''PUBLIC-READ'' = acl_t_ctor UNKNOWN"
proof -
  have h: "c_str ''Private'' \<notin> set canonical" "NUL \<notin> set ''Private''" "''Private'' \<notin> set canonical"
    by (simp_all add: c_str_def canonical_def NUL_def)
  from acl_round_trip [of "''Private''"] h show ?thesis
    by blast
qed

text \<open>
  C7. \<open>str\<close> is total over the enumeration: for each of the five enumerators it
  returns and does not reach \<open>abort()\<close>; it returns the canonical lowercase string for
  the four levels and \<open>NULL\<close> exactly for \<open>UNKNOWN\<close>.
\<close>

theorem str_total:
  "str (acl_t_ctor v) \<noteq> Abort
   \<and> str (acl_t_ctor PRIVATE) = Return (Some ''private'')
   \<and> str (acl_t_ctor PUBLIC_READ) = Return (Some ''public-read'')
   \<and> str (acl_t_ctor PUBLIC_READ_WRITE) = Return (Some ''public-read-write'')
   \<and> str (acl_t_ctor DEFAULT) = Return (Some ''default'')
   \<and> str (acl_t_ctor UNKNOWN) = Return None
   \<and> (str (acl_t_ctor v) = Return None) = (v = UNKNOWN)"
  by (cases v) (simp_all add: acl_t_ctor_def)

theorem str_total_witness:
  "str (acl_t_ctor DEFAULT) \<noteq> Abort \<and> str (acl_t_ctor DEFAULT) = Return (Some ''default'')
   \<and> (str (acl_t_ctor DEFAULT) = Return None) = (DEFAULT = UNKNOWN)"
  using str_total [of DEFAULT] by blast

text \<open>The \<open>abort()\<close> branch is the one taken by a value that is no enumerator.\<close>

lemma str_abort_reachable: "str (Acl 5) = Abort"
  by simp

end
